theory Spec2Isabelle
  imports Complex_Main "HOL-Library.Multiset"
begin

section \<open>Python values handled by the conformance harness\<close>

text \<open>
  The harness of \<^verbatim>\<open>__main__.py\<close> compares values computed by the scoring kernel
  with values loaded from the reference dump \<^verbatim>\<open>dumper.yaml\<close>. Python raises three
  kinds of exception on the paths modelled here: \<^verbatim>\<open>KeyError\<close> (a dictionary lookup),
  \<^verbatim>\<open>TypeError\<close> (\<^verbatim>\<open>Decimal(None)\<close>) and \<^verbatim>\<open>decimal.InvalidOperation\<close>.
\<close>

datatype error = KeyError | TypeError | InvalidOperation

text \<open>
  A finite \<^verbatim>\<open>decimal.Decimal\<close> is a coefficient and an exponent; the sign is folded
  into the coefficient. \<open>Dec c e\<close> stands for \<open>c * 10 ^ e\<close>.
\<close>

datatype dec = Dec (coefficient: int) (exponent: int)

definition dec_val :: "dec \<Rightarrow> rat" where
  "dec_val d =
     (if 0 \<le> exponent d then of_int (coefficient d * 10 ^ nat (exponent d))
      else of_int (coefficient d) / of_int (10 ^ nat (- exponent d)))"

text \<open>
  The result of rounding a reference value is a finite decimal or the quiet
  \<^verbatim>\<open>Decimal('NaN')\<close>.
\<close>

datatype decimal = Finite dec | NaN

text \<open>
  The scalar Python values that meet in a comparison: the leaves of the loaded YAML
  document (\<^verbatim>\<open>None\<close>, \<^verbatim>\<open>bool\<close>, \<^verbatim>\<open>int\<close>, \<^verbatim>\<open>float\<close>, \<^verbatim>\<open>str\<close>) and the kernel's
  \<^verbatim>\<open>Decimal\<close>. A finite float is kept as the pair that \<^verbatim>\<open>float.as_integer_ratio\<close>
  returns: \<open>PFloat n k\<close> is exactly \<open>n / 2 ^ k\<close>. \<open>PFloatInf True\<close> is \<^verbatim>\<open>-inf\<close>.
\<close>

datatype pyval =
    PNone
  | PBool bool
  | PInt int
  | PFloat int nat
  | PFloatNaN
  | PFloatInf bool
  | PStr string
  | PDecimal decimal

text \<open>The exact numeric value of a finite number; \<^verbatim>\<open>bool\<close> is a subclass of \<^verbatim>\<open>int\<close>.\<close>

fun py_num :: "pyval \<Rightarrow> rat option" where
  "py_num (PBool b) = Some (if b then 1 else 0)"
| "py_num (PInt n) = Some (of_int n)"
| "py_num (PFloat n k) = Some (of_int n / of_int (2 ^ k))"
| "py_num (PDecimal (Finite d)) = Some (dec_val d)"
| "py_num _ = None"

text \<open>
  Python's \<^verbatim>\<open>==\<close> on these values: numbers of the numeric tower compare by exact
  value (also \<^verbatim>\<open>Decimal\<close> against \<^verbatim>\<open>int\<close> and \<^verbatim>\<open>float\<close>), a NaN is equal to nothing,
  strings compare as strings, and values of unrelated types are unequal. No exception
  is raised by \<^verbatim>\<open>==\<close> or \<^verbatim>\<open>!=\<close>.
\<close>

definition py_eq :: "pyval \<Rightarrow> pyval \<Rightarrow> bool" where
  "py_eq a b =
     (case (py_num a, py_num b) of
        (Some x, Some y) \<Rightarrow> x = y
      | (Some x, None) \<Rightarrow> False
      | (None, Some y) \<Rightarrow> False
      | (None, None) \<Rightarrow>
          (case (a, b) of
             (PStr s, PStr t) \<Rightarrow> s = t
           | (PNone, PNone) \<Rightarrow> True
           | (PFloatInf s, PFloatInf t) \<Rightarrow> s = t
           | _ \<Rightarrow> False))"

definition py_ne :: "pyval \<Rightarrow> pyval \<Rightarrow> bool" where
  "py_ne a b = (\<not> py_eq a b)"

subsection \<open>The \<^verbatim>\<open>Decimal\<close> constructor\<close>

text \<open>
  \<^verbatim>\<open>Decimal(s)\<close> on a string: surrounding whitespace is stripped, underscores are
  removed, then the string is an optional sign followed by a number (digits with an
  optional fraction and an optional exponent, at least one digit), an infinity, or a
  quiet or signalling NaN with optional payload digits, all case-insensitive. Strings
  are ASCII here; exponent limits of the context are not modelled.
\<close>

datatype parsed = Number dec | Infinity | QNaN | SNaN

definition is_space :: "char \<Rightarrow> bool" where
  "is_space c = (let n = (of_char c :: nat) in (9 \<le> n \<and> n \<le> 13) \<or> (28 \<le> n \<and> n \<le> 32))"

definition strip :: "string \<Rightarrow> string" where
  "strip s = rev (dropWhile is_space (rev (dropWhile is_space s)))"

definition is_digit :: "char \<Rightarrow> bool" where
  "is_digit c = (let n = (of_char c :: nat) in 48 \<le> n \<and> n \<le> 57)"

definition digits_val :: "string \<Rightarrow> int" where
  "digits_val s = foldl (\<lambda>acc c. 10 * acc + (int (of_char c) - 48)) 0 s"

definition lower :: "char \<Rightarrow> char" where
  "lower c = (let n = (of_char c :: nat) in if 65 \<le> n \<and> n \<le> 90 then char_of (n + 32) else c)"

definition parse_exponent :: "string \<Rightarrow> int option" where
  "parse_exponent s =
     (let (sg, ds) = (case s of
                        c # t \<Rightarrow> if c = CHR ''-'' then (- 1, t)
                                 else if c = CHR ''+'' then (1, t) else (1, s)
                      | [] \<Rightarrow> (1, s))
      in if ds \<noteq> [] \<and> list_all is_digit ds then Some (sg * digits_val ds) else None)"

definition parse_number :: "int \<Rightarrow> string \<Rightarrow> parsed option" where
  "parse_number sg s =
     (let ip = takeWhile is_digit s;
          r1 = dropWhile is_digit s;
          (fp, r2) = (case r1 of
                        c # t \<Rightarrow> if c = CHR ''.'' then (takeWhile is_digit t, dropWhile is_digit t)
                                 else ([], r1)
                      | [] \<Rightarrow> ([], r1))
      in if ip = [] \<and> fp = [] then None
         else (case r2 of
                 [] \<Rightarrow> Some (Number (Dec (sg * digits_val (ip @ fp)) (- int (length fp))))
               | c # t \<Rightarrow>
                   if lower c = CHR ''e'' then
                     (case parse_exponent t of
                        None \<Rightarrow> None
                      | Some x \<Rightarrow> Some (Number (Dec (sg * digits_val (ip @ fp)) (x - int (length fp)))))
                   else None))"

definition parse_decimal :: "string \<Rightarrow> parsed option" where
  "parse_decimal s0 =
     (let s = filter (\<lambda>c. c \<noteq> CHR ''_'') (strip s0);
          (sg, body) = (case s of
                          c # t \<Rightarrow> if c = CHR ''-'' then (- 1, t)
                                   else if c = CHR ''+'' then (1, t) else (1, s)
                        | [] \<Rightarrow> (1, s));
          low = map lower body
      in if low = ''inf'' \<or> low = ''infinity'' then Some Infinity
         else if take 3 low = ''nan'' \<and> list_all is_digit (drop 3 low) then Some QNaN
         else if take 4 low = ''snan'' \<and> list_all is_digit (drop 4 low) then Some SNaN
         else parse_number sg body)"

text \<open>
  \<^verbatim>\<open>Decimal(p)\<close> is exact: an \<^verbatim>\<open>int\<close> (or \<^verbatim>\<open>bool\<close>) converts as it is, a float
  \<open>n / 2 ^ k\<close> becomes \<open>n * 5 ^ k * 10 ^ (- k)\<close>, a \<^verbatim>\<open>Decimal\<close> is returned
  unchanged, \<^verbatim>\<open>None\<close> raises \<^verbatim>\<open>TypeError\<close>, and a string that does not parse raises
  \<^verbatim>\<open>InvalidOperation\<close>.
\<close>

fun Decimal :: "pyval \<Rightarrow> error + parsed" where
  "Decimal PNone = Inl TypeError"
| "Decimal (PBool b) = Inr (Number (Dec (if b then 1 else 0) 0))"
| "Decimal (PInt n) = Inr (Number (Dec n 0))"
| "Decimal (PFloat n k) = Inr (Number (Dec (n * 5 ^ k) (- int k)))"
| "Decimal PFloatNaN = Inr QNaN"
| "Decimal (PFloatInf s) = Inr Infinity"
| "Decimal (PStr s) = (case parse_decimal s of None \<Rightarrow> Inl InvalidOperation | Some p \<Rightarrow> Inr p)"
| "Decimal (PDecimal (Finite d)) = Inr (Number d)"
| "Decimal (PDecimal NaN) = Inr QNaN"

subsection \<open>Rounding to one decimal place\<close>

text \<open>
  \<open>round_half_even_div c m\<close> is \<open>c / m\<close> rounded to the nearest integer, ties to the
  even one (the default context's \<^verbatim>\<open>ROUND_HALF_EVEN\<close>), for \<open>m > 0\<close>.
\<close>

definition round_half_even_div :: "int \<Rightarrow> int \<Rightarrow> int" where
  "round_half_even_div c m =
     (let q = c div m; r = c mod m
      in if 2 * r < m then q
         else if m < 2 * r then q + 1
         else if even q then q else q + 1)"

text \<open>
  \<^verbatim>\<open>round(d, 1)\<close> quantizes to exponent \<open>-1\<close>. It raises \<^verbatim>\<open>InvalidOperation\<close> on an
  infinity, on a signalling NaN, and when the result would need more than the
  context's 28 digits; a quiet NaN is returned as it is.
\<close>

fun py_round1 :: "parsed \<Rightarrow> error + decimal" where
  "py_round1 (Number d) =
     (let c = (if - 1 \<le> exponent d then coefficient d * 10 ^ nat (exponent d + 1)
               else round_half_even_div (coefficient d) (10 ^ nat (- 1 - exponent d)))
      in if \<bar>c\<bar> < 10 ^ 28 then Inr (Finite (Dec c (- 1))) else Inl InvalidOperation)"
| "py_round1 Infinity = Inl InvalidOperation"
| "py_round1 QNaN = Inr NaN"
| "py_round1 SNaN = Inl InvalidOperation"

text \<open>The expression \<^verbatim>\<open>round(Decimal(p), 1)\<close> of the harness.\<close>

definition round_Decimal :: "pyval \<Rightarrow> error + decimal" where
  "round_Decimal p = (case Decimal p of Inl e \<Rightarrow> Inl e | Inr x \<Rightarrow> py_round1 x)"

subsection \<open>Sorting and summing decimals\<close>

text \<open>
  \<^verbatim>\<open>sorted\<close> is a stable sort by value. Ordering comparisons that involve a NaN
  raise \<^verbatim>\<open>InvalidOperation\<close>, and sorting two or more elements compares each of them
  at least once; a single element is never compared.
\<close>

definition sort_value :: "decimal \<Rightarrow> rat" where
  "sort_value d = (case d of Finite x \<Rightarrow> dec_val x | NaN \<Rightarrow> 0)"

definition py_sorted :: "decimal list \<Rightarrow> error + decimal list" where
  "py_sorted xs =
     (if NaN \<in> set xs \<and> 2 \<le> length xs then Inl InvalidOperation
      else Inr (sort_key sort_value xs))"

text \<open>
  Every \<^verbatim>\<open>Decimal\<close> addition is rounded to the 28 significant digits of the default
  context (\<^verbatim>\<open>ROUND_HALF_EVEN\<close>). \<open>excess28 n\<close> is the number of digits of the
  coefficient \<open>n \<ge> 0\<close> beyond the 28th, and \<open>fix28\<close> rounds them away.
\<close>

function excess28 :: "int \<Rightarrow> nat" where
  "excess28 n = (if n < 10 ^ 28 then 0 else Suc (excess28 (n div 10)))"
  by pat_completeness auto
termination
  by (relation "measure nat") auto

declare excess28.simps [simp del]

definition fix28 :: "dec \<Rightarrow> dec" where
  "fix28 d =
     (let k = excess28 \<bar>coefficient d\<bar>
      in if k = 0 then d
         else Dec (round_half_even_div (coefficient d) (10 ^ k)) (exponent d + int k))"

definition dec_add :: "dec \<Rightarrow> dec \<Rightarrow> dec" where
  "dec_add a b =
     (let e = min (exponent a) (exponent b)
      in fix28 (Dec (coefficient a * 10 ^ nat (exponent a - e)
                     + coefficient b * 10 ^ nat (exponent b - e)) e))"

fun decimal_add :: "decimal \<Rightarrow> decimal \<Rightarrow> decimal" where
  "decimal_add (Finite a) (Finite b) = Finite (dec_add a b)"
| "decimal_add _ _ = NaN"

text \<open>\<^verbatim>\<open>sum(xs)\<close> starts from the integer 0 and adds from the left.\<close>

definition py_sum :: "decimal list \<Rightarrow> decimal" where
  "py_sum xs = foldl decimal_add (Finite (Dec 0 0)) xs"

subsection \<open>Rendering an index\<close>

text \<open>\<^verbatim>\<open>str(n)\<close> for a non-negative integer, as the f-strings of the field names use it.\<close>

function str_nat :: "nat \<Rightarrow> string" where
  "str_nat n =
     (if n < 10 then [char_of (48 + n)]
      else str_nat (n div 10) @ [char_of (48 + n mod 10)])"
  by pat_completeness auto
termination
  by (relation "measure id") auto

declare str_nat.simps [simp del]

section \<open>The kernel's query surface and the reference dump\<close>

text \<open>
  The classes \<^verbatim>\<open>Skipper\<close>, \<^verbatim>\<open>Race\<close> and \<^verbatim>\<open>Series\<close> belong to the package
  \<^verbatim>\<open>database\<close>; the harness only calls their accessors. They are taken as data:
  each accessor is a field holding what the call returns. Points are finite decimals; \<^verbatim>\<open>skipper_points_list\<close> returns an object
  with a \<^verbatim>\<open>points_scored\<close> list or a falsy sentinel (\<open>None\<close> here);
  \<^verbatim>\<open>get_all_skippers\<close> is given in iteration order.
\<close>

datatype Skipper = Skipper string

fun "identifier" :: "Skipper \<Rightarrow> string" where
  "identifier (Skipper s) = s"

record Race =
  get_skipper_race_points :: "Skipper \<rightharpoonup> dec"
  rc_skippers :: "Skipper set"

record SeriesPoints =
  points_scored :: "dec list"

record Series =
  name :: string
  races :: "Race list"
  get_all_skippers :: "Skipper list"
  skipper_points_list :: "Skipper \<Rightarrow> SeriesPoints option"
  get_skipper_rc_points :: "Skipper \<Rightarrow> dec option"

text \<open>
  One skipper's entry of the conformance dump, with the five fields of the dump
  format; \<^verbatim>\<open>race\<close> is the mapping as seen by a lookup with an integer key. The dump
  itself is \<^verbatim>\<open>perl_output["skip"]\<close>, keyed by skipper identifier.
\<close>

record perl_results =
  finished_races :: pyval
  low_n_list :: "pyval list"
  race :: "int \<rightharpoonup> pyval"
  rced_races :: pyval
  rc_points :: pyval


text \<open>
  A check returns \<^verbatim>\<open>None\<close> or a triple of the field name, the kernel's value and the
  reference value. The two values are printed only, so lists are kept as they are.
\<close>

datatype shown = Val pyval | DecList "dec list" | ValList "pyval list"

type_synonym mismatch = "string \<times> shown \<times> shown"

type_synonym check = "Series \<Rightarrow> Skipper \<Rightarrow> perl_results \<Rightarrow> error + mismatch option"

section \<open>The five checks of \<^verbatim>\<open>check_series_with_file\<close>\<close>

text \<open>The skipper \<^verbatim>\<open>skip\<close> is a variable of the enclosing loop; here it is a parameter.\<close>

definition check_finished_race_count :: check where
  "check_finished_race_count series skp perl =
     (let finished_race_count =
            int (length (filter (\<lambda>r. get_skipper_race_points r skp \<noteq> None) (races series)))
      in if py_ne (PInt finished_race_count) (finished_races perl)
         then Inr (Some (''Count'', Val (PInt finished_race_count), Val (finished_races perl)))
         else Inr None)"

definition is_str :: "pyval \<Rightarrow> bool" where
  "is_str p = (case p of PStr s \<Rightarrow> True | _ \<Rightarrow> False)"

text \<open>The list comprehension \<^verbatim>\<open>[round(Decimal(p), 1) for p in series_points_perl]\<close>.\<close>

fun round_all :: "pyval list \<Rightarrow> error + decimal list" where
  "round_all [] = Inr []"
| "round_all (p # ps) =
     (case round_Decimal p of
        Inl e \<Rightarrow> Inl e
      | Inr d \<Rightarrow> (case round_all ps of Inl e \<Rightarrow> Inl e | Inr ds \<Rightarrow> Inr (d # ds)))"

text \<open>The loop over \<^verbatim>\<open>enumerate(zip(sorted(...), sorted(...)))\<close>, from index \<open>i\<close>.\<close>

fun first_point_mismatch :: "nat \<Rightarrow> (dec \<times> decimal) list \<Rightarrow> mismatch option" where
  "first_point_mismatch i [] = None"
| "first_point_mismatch i ((a, b) # rest) =
     (if py_ne (PDecimal (Finite a)) (PDecimal b)
      then Some (''Point['' @ str_nat i @ '']'', Val (PDecimal (Finite a)), Val (PDecimal b))
      else first_point_mismatch (Suc i) rest)"

definition check_series_points :: check where
  "check_series_points series skp perl =
     (let series_points_perl = low_n_list perl
      in case skipper_points_list series skp of
           Some sp \<Rightarrow>
             (let series_points = points_scored sp
              in if list_ex is_str series_points_perl
                 then Inr (Some (''Number/String'', DecList series_points, ValList series_points_perl))
                 else
                   (case round_all series_points_perl of
                      Inl e \<Rightarrow> Inl e
                    | Inr perl_dec \<Rightarrow>
                        if length series_points \<noteq> length perl_dec
                        then Inr (Some (''Point Count'', Val (PInt (int (length series_points))),
                                        Val (PInt (int (length perl_dec)))))
                        else
                          (case py_sorted perl_dec of
                             Inl e \<Rightarrow> Inl e
                           | Inr sorted_perl \<Rightarrow>
                               (case first_point_mismatch 0
                                       (zip (sort_key dec_val series_points) sorted_perl) of
                                  Some m \<Rightarrow> Inr (Some m)
                                | None \<Rightarrow>
                                    if py_ne (PDecimal (py_sum (map Finite series_points)))
                                             (PDecimal (py_sum perl_dec))
                                    then Inr (Some (''Sum Count'',
                                                    Val (PInt (int (length series_points))),
                                                    Val (PInt (int (length perl_dec)))))
                                    else Inr None))))
         | None \<Rightarrow>
             if length series_points_perl \<noteq> 1
             then Inr (Some (''Array Length'', Val (PInt 1), ValList series_points_perl))
             else
               (let p = hd series_points_perl
                in if \<not> (py_eq p (PStr ''na'') \<or> py_eq p (PStr ''DNQ''))
                   then Inr (Some (''Point String'', Val (PStr ''na/DNQ''), Val p))
                   else Inr None))"

text \<open>The kernel's side of one race (\<^verbatim>\<open># Format Python result\<close>).\<close>

definition python_race_result :: "Race \<Rightarrow> Skipper \<Rightarrow> pyval" where
  "python_race_result r skp =
     (case get_skipper_race_points r skp of
        Some p \<Rightarrow> PDecimal (Finite p)
      | None \<Rightarrow> if skp \<in> rc_skippers r then PStr ''RC'' else PNone)"

text \<open>The reference's side of the race at 0-based position \<open>i\<close> (\<^verbatim>\<open># Format Perl result\<close>).\<close>

definition perl_race_result :: "perl_results \<Rightarrow> nat \<Rightarrow> pyval" where
  "perl_race_result perl i =
     (case race perl (int i + 1) of Some v \<Rightarrow> v | None \<Rightarrow> PNone)"

text \<open>The loop over \<^verbatim>\<open>enumerate(series.races)\<close>, from index \<open>i\<close>.\<close>

fun race_results_from :: "nat \<Rightarrow> Race list \<Rightarrow> Skipper \<Rightarrow> perl_results \<Rightarrow> mismatch option" where
  "race_results_from i [] skp perl = None"
| "race_results_from i (r # rs) skp perl =
     (let pts = python_race_result r skp;
          pts_perl = perl_race_result perl i
      in if pts = PNone \<and> pts_perl = PNone then race_results_from (Suc i) rs skp perl
         else if py_ne pts pts_perl
         then Some (''Race['' @ str_nat (i + 1) @ '']'', Val pts, Val pts_perl)
         else race_results_from (Suc i) rs skp perl)"

definition check_race_results :: check where
  "check_race_results series skp perl = Inr (race_results_from 0 (races series) skp perl)"

definition check_rc_race_count :: check where
  "check_rc_race_count series skp perl =
     (let rc_count = int (length (filter (\<lambda>r. skp \<in> rc_skippers r) (races series)));
          rc_count_perl = rced_races perl
      in if py_ne (PInt rc_count) rc_count_perl
         then Inr (Some (''RC Count'', Val (PInt rc_count), Val rc_count_perl))
         else Inr None)"

definition check_rc_points :: check where
  "check_rc_points series skp perl =
     (let rc_pts_perl = rc_points perl
      in case get_skipper_rc_points series skp of
           None \<Rightarrow>
             if py_ne rc_pts_perl (PStr ''na'')
             then Inr (Some (''RC Points'', Val (PStr ''na''), Val rc_pts_perl))
             else Inr None
         | Some rc_pts \<Rightarrow>
             (case round_Decimal rc_pts_perl of
                Inl e \<Rightarrow> Inl e
              | Inr d \<Rightarrow>
                  if py_ne (PDecimal (Finite rc_pts)) (PDecimal d)
                  then Inr (Some (''RC Points'', Val (PDecimal (Finite rc_pts)), Val (PDecimal d)))
                  else Inr None))"


section \<open>\<^verbatim>\<open>check_series_with_file\<close>\<close>






section \<open>\<^verbatim>\<open>main_check\<close>\<close>






section \<open>A small regatta\<close>

text \<open>
  Two races and three skippers. Alice wins race 1 and runs race 2, Bob sails both,
  Carol runs race 1 and is second in race 2.
\<close>

definition alice :: Skipper where "alice = Skipper ''alice''"
definition bob :: Skipper where "bob = Skipper ''bob''"
definition carol :: Skipper where "carol = Skipper ''carol''"

definition race_1 :: Race where
  "race_1 = \<lparr> get_skipper_race_points = [alice \<mapsto> Dec 10 (- 1), bob \<mapsto> Dec 20 (- 1)],
               rc_skippers = {carol} \<rparr>"

definition race_2 :: Race where
  "race_2 = \<lparr> get_skipper_race_points = [bob \<mapsto> Dec 10 (- 1), carol \<mapsto> Dec 20 (- 1)],
               rc_skippers = {alice} \<rparr>"

definition spring :: Series where
  "spring = \<lparr> name = ''spring'',
               races = [race_1, race_2],
               get_all_skippers = [alice, bob, carol],
               skipper_points_list =
                 [alice \<mapsto> \<lparr> points_scored = [Dec 10 (- 1)] \<rparr>,
                  bob \<mapsto> \<lparr> points_scored = [Dec 20 (- 1), Dec 10 (- 1)] \<rparr>,
                  carol \<mapsto> \<lparr> points_scored = [Dec 20 (- 1)] \<rparr>],
               get_skipper_rc_points = [alice \<mapsto> Dec 10 (- 1), carol \<mapsto> Dec 20 (- 1)] \<rparr>"

text \<open>
  A dump that disagrees on Alice's finished races (and gives her \<^verbatim>\<open>rc_points: na\<close>),
  agrees on Bob, and disagrees on Carol's count of race-committee duties.
\<close>

definition alice_perl :: perl_results where
  "alice_perl = \<lparr> finished_races = PInt 2, low_n_list = [PFloat 1 0],
                   race = [1 \<mapsto> PFloat 1 0, 2 \<mapsto> PStr ''RC''],
                   rced_races = PInt 1, rc_points = PStr ''na'' \<rparr>"

definition bob_perl :: perl_results where
  "bob_perl = \<lparr> finished_races = PInt 2, low_n_list = [PInt 1, PFloat 2 0],
                 race = [1 \<mapsto> PFloat 2 0, 2 \<mapsto> PFloat 1 0],
                 rced_races = PInt 0, rc_points = PStr ''na'' \<rparr>"

definition carol_perl :: perl_results where
  "carol_perl = \<lparr> finished_races = PInt 1, low_n_list = [PFloat 2 0],
                   race = [1 \<mapsto> PStr ''RC'', 2 \<mapsto> PFloat 2 0],
                   rced_races = PInt 2, rc_points = PStr ''2.0'' \<rparr>"






text \<open>
  A series of one race in which the kernel gives Alice 1.2 points and the dump entry
  of race 1 is the float 1.25.
\<close>

definition race_q :: Race where
  "race_q = \<lparr> get_skipper_race_points = [alice \<mapsto> Dec 12 (- 1)], rc_skippers = {} \<rparr>"

definition quarter :: Series where
  "quarter = \<lparr> name = ''quarter'', races = [race_q], get_all_skippers = [alice],
                skipper_points_list = [alice \<mapsto> \<lparr> points_scored = [Dec 12 (- 1)] \<rparr>],
                get_skipper_rc_points = Map.empty \<rparr>"

definition quarter_perl :: perl_results where
  "quarter_perl = \<lparr> finished_races = PInt 1, low_n_list = [PFloat 5 2],
                     race = [1 \<mapsto> PFloat 5 2],
                     rced_races = PInt 0, rc_points = PStr ''na'' \<rparr>"

text \<open>
  A series whose counted points are \<open>10 ^ 27 - 1\<close>, 1.5 and 1.0, and a dump that
  lists the same three values in another order.
\<close>

definition huge :: Series where
  "huge = \<lparr> name = ''huge'', races = [], get_all_skippers = [alice],
             skipper_points_list =
               [alice \<mapsto> \<lparr> points_scored = [Dec (10 ^ 27 - 1) 0, Dec 15 (- 1), Dec 10 (- 1)] \<rparr>],
             get_skipper_rc_points = Map.empty \<rparr>"

definition huge_perl :: perl_results where
  "huge_perl = \<lparr> finished_races = PInt 0,
                  low_n_list = [PFloat 3 1, PInt 1, PInt (10 ^ 27 - 1)],
                  race = Map.empty, rced_races = PInt 0, rc_points = PStr ''na'' \<rparr>"

text \<open>A skipper who never sailed: the kernel reports the sentinel.\<close>

definition idle :: Series where
  "idle = \<lparr> name = ''idle'', races = [], get_all_skippers = [alice],
             skipper_points_list = Map.empty, get_skipper_rc_points = Map.empty \<rparr>"

definition idle_perl :: perl_results where
  "idle_perl = \<lparr> finished_races = PInt 0, low_n_list = [PStr ''na''],
                  race = Map.empty, rced_races = PInt 0, rc_points = PStr ''na'' \<rparr>"


section \<open>Properties of the comparison\<close>

lemma py_eq_PStr [simp]: "py_eq p (PStr s) = (p = PStr s)"
  by (cases p rule: py_num.cases) (auto simp: py_eq_def)

lemma py_eq_PNone [simp]: "py_eq PNone PNone"
  by (simp add: py_eq_def)

lemma is_str_iff: "is_str p = (\<exists>s. p = PStr s)"
  by (cases p) (simp_all add: is_str_def)

lemma list_ex_is_str: "list_ex is_str ps = (\<exists>s. PStr s \<in> set ps)"
  by (auto simp: list_ex_iff is_str_iff)

section \<open>The series-points check\<close>

text \<open>
  Claim C5. When the kernel reports a list of points for the skipper and some element
  of the reference \<^verbatim>\<open>low_n_list\<close> is a string, \<^verbatim>\<open>check_series_points\<close> returns the
  mismatch named \<^verbatim>\<open>Number/String\<close> with the kernel's list and the reference list as
  loaded; the string is not converted to a number, whatever it spells.
\<close>

theorem string_in_low_n_list_is_number_string_mismatch:
  "skipper_points_list series skp = Some sp \<Longrightarrow> PStr x \<in> set (low_n_list perl) \<Longrightarrow>
   check_series_points series skp perl =
     Inr (Some (''Number/String'', DecList (points_scored sp), ValList (low_n_list perl)))"
  using list_ex_is_str [of "low_n_list perl"] by (auto simp: check_series_points_def Let_def)

theorem string_in_low_n_list_witness:
  "skipper_points_list spring alice = Some \<lparr> points_scored = [Dec 10 (- 1)] \<rparr>
   \<and> PStr ''1.0'' \<in> set (low_n_list (alice_perl \<lparr> low_n_list := [PStr ''1.0''] \<rparr>))
   \<and> check_series_points spring alice (alice_perl \<lparr> low_n_list := [PStr ''1.0''] \<rparr>) =
       Inr (Some (''Number/String'', DecList [Dec 10 (- 1)], ValList [PStr ''1.0'']))"
proof -
  have kernel: "skipper_points_list spring alice = Some \<lparr> points_scored = [Dec 10 (- 1)] \<rparr>"
    by (simp add: spring_def alice_def bob_def carol_def)
  have ref: "PStr ''1.0'' \<in> set (low_n_list (alice_perl \<lparr> low_n_list := [PStr ''1.0''] \<rparr>))"
    by simp
  from string_in_low_n_list_is_number_string_mismatch [OF kernel ref] kernel ref
  show ?thesis by simp
qed

text \<open>
  Claim C7. When the kernel reports the falsy sentinel for the skipper,
  \<^verbatim>\<open>check_series_points\<close> passes exactly when the reference \<^verbatim>\<open>low_n_list\<close> is the
  one-element list \<^verbatim>\<open>["na"]\<close> or \<^verbatim>\<open>["DNQ"]\<close>; a list of another length gives the
  \<^verbatim>\<open>Array Length\<close> mismatch and a single other element the \<^verbatim>\<open>Point String\<close> mismatch,
  so no number is accepted.
\<close>

theorem sentinel_needs_na_or_DNQ:
  "skipper_points_list series skp = None \<Longrightarrow>
   ((check_series_points series skp perl = Inr None) =
      (low_n_list perl = [PStr ''na''] \<or> low_n_list perl = [PStr ''DNQ'']))
   \<and> (length (low_n_list perl) \<noteq> 1 \<longrightarrow>
        check_series_points series skp perl =
          Inr (Some (''Array Length'', Val (PInt 1), ValList (low_n_list perl))))
   \<and> (\<forall>p. low_n_list perl = [p] \<and> p \<noteq> PStr ''na'' \<and> p \<noteq> PStr ''DNQ'' \<longrightarrow>
        check_series_points series skp perl =
          Inr (Some (''Point String'', Val (PStr ''na/DNQ''), Val p)))"
  by (cases "low_n_list perl"; cases "tl (low_n_list perl)")
     (auto simp: check_series_points_def Let_def)

theorem sentinel_needs_na_or_DNQ_witness:
  "skipper_points_list idle alice = None
   \<and> check_series_points idle alice idle_perl = Inr None
   \<and> check_series_points idle alice (idle_perl \<lparr> low_n_list := [] \<rparr>) =
       Inr (Some (''Array Length'', Val (PInt 1), ValList []))
   \<and> check_series_points idle alice (idle_perl \<lparr> low_n_list := [PFloat 7 1] \<rparr>) =
       Inr (Some (''Point String'', Val (PStr ''na/DNQ''), Val (PFloat 7 1)))"
proof -
  have kernel: "skipper_points_list idle alice = None"
    by (simp add: idle_def)
  from sentinel_needs_na_or_DNQ [OF kernel, of idle_perl]
  have "check_series_points idle alice idle_perl = Inr None"
    by (simp add: idle_perl_def)
  moreover from sentinel_needs_na_or_DNQ [OF kernel, of "idle_perl \<lparr> low_n_list := [] \<rparr>"]
  have "check_series_points idle alice (idle_perl \<lparr> low_n_list := [] \<rparr>) =
          Inr (Some (''Array Length'', Val (PInt 1), ValList []))"
    by simp
  moreover from sentinel_needs_na_or_DNQ [OF kernel, of "idle_perl \<lparr> low_n_list := [PFloat 7 1] \<rparr>"]
  have "check_series_points idle alice (idle_perl \<lparr> low_n_list := [PFloat 7 1] \<rparr>) =
          Inr (Some (''Point String'', Val (PStr ''na/DNQ''), Val (PFloat 7 1)))"
    by simp
  ultimately show ?thesis using kernel by simp
qed

section \<open>The per-race check\<close>



section \<open>The race-committee points check\<close>

text \<open>
  Claim C8, at the input where it fails. When the kernel reports race-committee points
  for the skipper and the reference \<^verbatim>\<open>rc_points\<close> is the string \<^verbatim>\<open>na\<close>,
  \<^verbatim>\<open>check_rc_points\<close> returns no mismatch record: \<^verbatim>\<open>Decimal("na")\<close> raises
  \<^verbatim>\<open>InvalidOperation\<close>.
\<close>

theorem check_rc_points_raises_on_na:
  "get_skipper_rc_points series skp = Some v \<Longrightarrow> rc_points perl = PStr ''na'' \<Longrightarrow>
   check_rc_points series skp perl = Inl InvalidOperation"
  by (simp add: check_rc_points_def round_Decimal_def) code_simp

theorem check_rc_points_raises_on_na_witness:
  "get_skipper_rc_points spring alice = Some (Dec 10 (- 1))
   \<and> rc_points alice_perl = PStr ''na''
   \<and> check_rc_points spring alice alice_perl = Inl InvalidOperation"
proof -
  have kernel: "get_skipper_rc_points spring alice = Some (Dec 10 (- 1))"
    by (simp add: spring_def alice_def bob_def carol_def)
  have ref: "rc_points alice_perl = PStr ''na''"
    by (simp add: alice_perl_def)
  from check_rc_points_raises_on_na [OF kernel ref] kernel ref show ?thesis by simp
qed

section \<open>The per-race check, position by position\<close>

lemma race_results_from_None:
  "(race_results_from i rs skp perl = None) =
   (\<forall>j<length rs. py_eq (python_race_result (rs ! j) skp) (perl_race_result perl (i + j)))"
proof (induction rs arbitrary: i)
  case Nil
  then show ?case by simp
next
  case (Cons r rs)
  have split: "\<And>P. (\<forall>j<Suc (length rs). P j) = (P 0 \<and> (\<forall>j<length rs. P (Suc j)))"
    by (auto simp: less_Suc_eq_0_disj)
  show ?case
    by (simp add: Let_def py_ne_def Cons.IH split)
qed

lemma race_results_from_Some:
  "race_results_from i rs skp perl = Some m \<Longrightarrow>
   \<exists>j<length rs.
     m = (''Race['' @ str_nat (i + j + 1) @ '']'', Val (python_race_result (rs ! j) skp),
          Val (perl_race_result perl (i + j)))
     \<and> \<not> py_eq (python_race_result (rs ! j) skp) (perl_race_result perl (i + j))
     \<and> (\<forall>k<j. py_eq (python_race_result (rs ! k) skp) (perl_race_result perl (i + k)))"
proof (induction rs arbitrary: i)
  case Nil
  then show ?case by simp
next
  case (Cons r rs)
  show ?case
  proof (cases "py_eq (python_race_result r skp) (perl_race_result perl i)")
    case False
    then have "m = (''Race['' @ str_nat (i + 0 + 1) @ '']'', Val (python_race_result r skp),
                    Val (perl_race_result perl i))"
      using Cons.prems by (auto simp: Let_def py_ne_def split: if_splits)
    with False show ?thesis by (intro exI [of _ 0]) simp
  next
    case True
    then have "race_results_from (Suc i) rs skp perl = Some m"
      using Cons.prems by (auto simp: Let_def py_ne_def split: if_splits)
    from Cons.IH [OF this] obtain j where j: "j < length rs"
      "m = (''Race['' @ str_nat (Suc i + j + 1) @ '']'', Val (python_race_result (rs ! j) skp),
            Val (perl_race_result perl (Suc i + j)))"
      "\<not> py_eq (python_race_result (rs ! j) skp) (perl_race_result perl (Suc i + j))"
      "\<forall>k<j. py_eq (python_race_result (rs ! k) skp) (perl_race_result perl (Suc i + k))"
      by blast
    have "\<forall>k<Suc j. py_eq (python_race_result ((r # rs) ! k) skp) (perl_race_result perl (i + k))"
      using True j(4) by (auto simp: less_Suc_eq_0_disj)
    with j(1-3) show ?thesis by (intro exI [of _ "Suc j"]) simp
  qed
qed

text \<open>
  Claim C6. The race at 0-based position \<open>i\<close> of the series is compared with the
  reference entry under key \<open>i + 1\<close>. The check passes exactly when, for every
  position, the kernel's result equals that entry (a missing key reading as
  \<^verbatim>\<open>None\<close>); a mismatch is reported for the first position that disagrees, under
  the label \<^verbatim>\<open>Race[i + 1]\<close>; and a skipper who is neither in the points mapping nor
  in the race-committee set agrees with a missing key.
\<close>

theorem check_race_results_one_based:
  "((check_race_results series skp perl = Inr None) =
      (\<forall>i<length (races series).
         py_eq (python_race_result (races series ! i) skp)
               (case race perl (int i + 1) of Some v \<Rightarrow> v | None \<Rightarrow> PNone)))
   \<and> (\<forall>m. check_race_results series skp perl = Inr (Some m) \<longrightarrow>
         (\<exists>i<length (races series).
            m = (''Race['' @ str_nat (i + 1) @ '']'',
                 Val (python_race_result (races series ! i) skp),
                 Val (case race perl (int i + 1) of Some v \<Rightarrow> v | None \<Rightarrow> PNone))
            \<and> \<not> py_eq (python_race_result (races series ! i) skp)
                       (case race perl (int i + 1) of Some v \<Rightarrow> v | None \<Rightarrow> PNone)
            \<and> (\<forall>j<i. py_eq (python_race_result (races series ! j) skp)
                            (case race perl (int j + 1) of Some v \<Rightarrow> v | None \<Rightarrow> PNone))))
   \<and> (\<forall>i<length (races series).
         get_skipper_race_points (races series ! i) skp = None
         \<and> skp \<notin> rc_skippers (races series ! i) \<and> race perl (int i + 1) = None \<longrightarrow>
         py_eq (python_race_result (races series ! i) skp)
               (case race perl (int i + 1) of Some v \<Rightarrow> v | None \<Rightarrow> PNone))"
proof (intro conjI allI impI)
  show "(check_race_results series skp perl = Inr None) =
      (\<forall>i<length (races series).
         py_eq (python_race_result (races series ! i) skp)
               (case race perl (int i + 1) of Some v \<Rightarrow> v | None \<Rightarrow> PNone))"
    using race_results_from_None [of 0 "races series" skp perl]
    by (simp add: check_race_results_def perl_race_result_def)
next
  fix m assume "check_race_results series skp perl = Inr (Some m)"
  then have "race_results_from 0 (races series) skp perl = Some m"
    by (simp add: check_race_results_def)
  from race_results_from_Some [OF this]
  show "\<exists>i<length (races series).
            m = (''Race['' @ str_nat (i + 1) @ '']'',
                 Val (python_race_result (races series ! i) skp),
                 Val (case race perl (int i + 1) of Some v \<Rightarrow> v | None \<Rightarrow> PNone))
            \<and> \<not> py_eq (python_race_result (races series ! i) skp)
                       (case race perl (int i + 1) of Some v \<Rightarrow> v | None \<Rightarrow> PNone)
            \<and> (\<forall>j<i. py_eq (python_race_result (races series ! j) skp)
                            (case race perl (int j + 1) of Some v \<Rightarrow> v | None \<Rightarrow> PNone))"
    by (simp add: perl_race_result_def)
next
  fix i assume "i < length (races series)"
    and "get_skipper_race_points (races series ! i) skp = None
         \<and> skp \<notin> rc_skippers (races series ! i) \<and> race perl (int i + 1) = None"
  then show "py_eq (python_race_result (races series ! i) skp)
               (case race perl (int i + 1) of Some v \<Rightarrow> v | None \<Rightarrow> PNone)"
    by (simp add: python_race_result_def)
qed

theorem check_race_results_one_based_witness:
  "check_race_results spring carol carol_perl = Inr None
   \<and> check_race_results spring alice (alice_perl \<lparr> race := [1 \<mapsto> PFloat 1 0] \<rparr>) =
       Inr (Some (''Race[2]'', Val (PStr ''RC''), Val PNone))
   \<and> python_race_result (races spring ! 1) alice = PStr ''RC''
   \<and> race (alice_perl \<lparr> race := [1 \<mapsto> PFloat 1 0] \<rparr>) (int 1 + 1) = None
   \<and> get_skipper_race_points (races spring ! 0) (Skipper ''dave'') = None
   \<and> race idle_perl (int 0 + 1) = None
   \<and> py_eq (python_race_result (races spring ! 0) (Skipper ''dave'')) PNone"
proof -
  have pass: "check_race_results spring carol carol_perl = Inr None"
    by code_simp
  have fail: "check_race_results spring alice (alice_perl \<lparr> race := [1 \<mapsto> PFloat 1 0] \<rparr>) =
                Inr (Some (''Race[2]'', Val (PStr ''RC''), Val PNone))"
    by code_simp
  have kernel: "python_race_result (races spring ! 1) alice = PStr ''RC''"
    by code_simp
  have missing: "race (alice_perl \<lparr> race := [1 \<mapsto> PFloat 1 0] \<rparr>) (int 1 + 1) = None"
    by simp
  have len: "0 < length (races spring)"
    by (simp add: spring_def)
  have absent: "get_skipper_race_points (races spring ! 0) (Skipper ''dave'') = None"
    "Skipper ''dave'' \<notin> rc_skippers (races spring ! 0)"
    "race idle_perl (int 0 + 1) = None"
    by (simp_all add: spring_def race_1_def alice_def bob_def carol_def idle_perl_def)
  from check_race_results_one_based [of spring "Skipper ''dave''" idle_perl] len absent
  have "py_eq (python_race_result (races spring ! 0) (Skipper ''dave'')) PNone"
    by auto
  with pass fail kernel missing absent show ?thesis by simp
qed

section \<open>The loop over the skippers\<close>





section \<open>The loop over the series\<close>














section \<open>Decimal arithmetic\<close>

text \<open>
  Facts about the value of a decimal, about rounding, and about the additions that the
  28-digit context leaves exact.
\<close>

lemma dec_val_powi: "dec_val (Dec c e) = of_int c * 10 powi e"
proof (cases "0 \<le> e")
  case True
  then show ?thesis by (simp add: dec_val_def power_int_def)
next
  case False
  then show ?thesis
    by (simp add: dec_val_def power_int_def field_simps)
qed

lemma excess28_bounds:
  "0 \<le> n \<Longrightarrow> n < 10 ^ (28 + excess28 n) \<and> (0 < excess28 n \<longrightarrow> 10 ^ (27 + excess28 n) \<le> n)"
proof (induction n rule: excess28.induct)
  case (1 n)
  show ?case
  proof (cases "n < 10 ^ 28")
    case True
    then show ?thesis by (simp add: excess28.simps [of n])
  next
    case False
    with "1.prems" have nn: "0 \<le> n div 10" by simp
    from "1.IH" [OF False nn]
    have ih: "n div 10 < 10 ^ (28 + excess28 (n div 10))"
      "0 < excess28 (n div 10) \<longrightarrow> 10 ^ (27 + excess28 (n div 10)) \<le> n div 10"
      by simp_all
    have ex: "excess28 n = Suc (excess28 (n div 10))"
      using False by (simp add: excess28.simps [of n])
    have "n < 10 * 10 ^ (28 + excess28 (n div 10))"
      using ih(1) by presburger
    then have up: "n < 10 ^ (28 + excess28 n)"
      by (simp only: ex add_Suc_right power_Suc)
    have lo: "10 ^ (27 + excess28 n) \<le> n"
    proof (cases "0 < excess28 (n div 10)")
      case True
      with ih(2) have "10 ^ (27 + excess28 (n div 10)) \<le> n div 10" by simp
      then have "10 * 10 ^ (27 + excess28 (n div 10)) \<le> n" by presburger
      then show ?thesis by (simp only: ex add_Suc_right power_Suc)
    next
      case z: False
      then have "excess28 n = 1" by (simp add: ex)
      then show ?thesis using False by simp
    qed
    from up lo show ?thesis by simp
  qed
qed

lemma round_half_even_div_exact:
  "0 < m \<Longrightarrow> m dvd c \<Longrightarrow> round_half_even_div c m = c div m"
  by (auto simp: round_half_even_div_def Let_def)

lemma round_half_even_div_near:
  assumes "0 < m"
  shows "\<bar>2 * (c - m * round_half_even_div c m)\<bar> \<le> m
         \<and> (\<bar>2 * (c - m * round_half_even_div c m)\<bar> = m \<longrightarrow> even (round_half_even_div c m))"
proof -
  have c: "c = m * (c div m) + c mod m" by simp
  have r: "0 \<le> c mod m" "c mod m < m" using assms by simp_all
  define q where "q = c div m"
  define r where "r = c mod m"
  have c': "c = m * q + r" and r': "0 \<le> r" "r < m"
    using c r by (simp_all add: q_def r_def)
  have "round_half_even_div c m =
          (if 2 * r < m then q else if m < 2 * r then q + 1 else if even q then q else q + 1)"
    by (simp add: round_half_even_div_def Let_def q_def r_def)
  then show ?thesis
    using c' r' by (auto simp: algebra_simps)
qed

lemma ten_powi_pos: "0 < (10::rat) powi e"
  by (simp add: power_int_def)

lemma fix28_exact:
  assumes tenth: "dec_val d * 10 \<in> \<int>" and small: "\<bar>dec_val d\<bar> < 10 ^ 27"
  shows "dec_val (fix28 d) = dec_val d"
proof -
  obtain c e where d: "d = Dec c e" by (cases d)
  define k where "k = excess28 \<bar>c\<bar>"
  show ?thesis
  proof (cases "k = 0")
    case True
    then show ?thesis by (simp add: fix28_def d k_def)
  next
    case False
    from excess28_bounds [of "\<bar>c\<bar>"] False have lo: "10 ^ (27 + k) \<le> \<bar>c\<bar>"
      by (simp add: k_def)
    have val: "\<bar>dec_val d\<bar> = of_int \<bar>c\<bar> * 10 powi e"
      using ten_powi_pos [of e] by (simp add: d dec_val_powi abs_mult)
    have "(of_int (10 ^ (27 + k)) :: rat) \<le> of_int \<bar>c\<bar>"
      using lo by (simp only: of_int_le_iff)
    then have "(10::rat) ^ (27 + k) * 10 powi e \<le> of_int \<bar>c\<bar> * 10 powi e"
      using ten_powi_pos [of e] by (simp add: mult_right_mono)
    moreover have "of_int \<bar>c\<bar> * 10 powi e < (10::rat) ^ 27"
      using small by (simp only: val)
    ultimately have "(10::rat) ^ (27 + k) * 10 powi e < 10 ^ 27"
      by (rule le_less_trans)
    moreover have "(10::rat) powi (int (27 + k) + e) = 10 powi int (27 + k) * 10 powi e"
      by (rule power_int_add) simp
    then have "(10::rat) ^ (27 + k) * 10 powi e = 10 powi (int (27 + k) + e)"
      by (simp only: power_int_of_nat)
    ultimately have "(10::rat) powi (int (27 + k) + e) < 10 powi 27"
      by simp
    then have "int (27 + k) + e < 27"
      by (rule power_int_le_imp_less_exp [rotated]) simp_all
    then have e_le: "e + 1 \<le> - int k" by simp
    define t where "t = nat (- e - 1)"
    have t: "e + 1 = - int t" "k \<le> t" using e_le by (simp_all add: t_def)
    from tenth obtain j :: int where j: "dec_val d * 10 = of_int j"
      by (auto elim: Ints_cases)
    have "dec_val d * 10 = of_int c * 10 powi (e + 1)"
      by (simp add: d dec_val_powi power_int_add_1)
    with j have "of_int c * (10::rat) powi (- int t) = of_int j"
      by (simp add: t(1))
    then have "(of_int c :: rat) = of_int j * 10 ^ t"
      by (simp add: power_int_minus field_simps)
    then have "(of_int c :: rat) = of_int (j * 10 ^ t)" by simp
    then have c: "c = j * 10 ^ t" by (simp only: of_int_eq_iff)
    have "(10::int) ^ t = 10 ^ k * 10 ^ (t - k)"
      using t(2) by (simp flip: power_add)
    with c have dvd: "(10::int) ^ k dvd c" by simp
    then have r: "round_half_even_div c (10 ^ k) = c div 10 ^ k"
      by (intro round_half_even_div_exact) simp_all
    have f: "fix28 d = Dec (c div 10 ^ k) (e + int k)"
      using False by (simp add: fix28_def d Let_def r flip: k_def)
    from dvd have c_split: "c = (c div 10 ^ k) * 10 ^ k" by simp
    have "dec_val (fix28 d) = of_int (c div 10 ^ k) * 10 powi (e + int k)"
      by (simp add: f dec_val_powi)
    also have "\<dots> = of_int (c div 10 ^ k) * 10 ^ k * 10 powi e"
      by (simp add: power_int_add mult.commute)
    also have "\<dots> = of_int ((c div 10 ^ k) * 10 ^ k) * 10 powi e"
      by simp
    also have "\<dots> = dec_val d"
      using c_split by (simp add: d dec_val_powi)
    finally show ?thesis .
  qed
qed

lemma dec_val_aligned:
  "e \<le> exponent a \<Longrightarrow> of_int (coefficient a * 10 ^ nat (exponent a - e)) * (10::rat) powi e = dec_val a"
proof -
  assume le: "e \<le> exponent a"
  obtain c x where a: "a = Dec c x" by (cases a)
  have "(10::rat) ^ nat (x - e) = 10 powi (x - e)"
    using le by (simp add: a power_int_def)
  then have "of_int (c * 10 ^ nat (x - e)) * (10::rat) powi e = of_int c * (10 powi (x - e) * 10 powi e)"
    by simp
  also have "\<dots> = of_int c * 10 powi x"
    by (simp flip: power_int_add)
  finally show ?thesis by (simp add: a dec_val_powi)
qed

lemma dec_add_exact:
  assumes "(dec_val a + dec_val b) * 10 \<in> \<int>" and "\<bar>dec_val a + dec_val b\<bar> < 10 ^ 27"
  shows "dec_val (dec_add a b) = dec_val a + dec_val b"
proof -
  define e where "e = min (exponent a) (exponent b)"
  define s where "s = Dec (coefficient a * 10 ^ nat (exponent a - e)
                            + coefficient b * 10 ^ nat (exponent b - e)) e"
  have "dec_val s = of_int (coefficient a * 10 ^ nat (exponent a - e)) * 10 powi e
                    + of_int (coefficient b * 10 ^ nat (exponent b - e)) * 10 powi e"
    by (simp add: s_def dec_val_powi algebra_simps)
  also have "\<dots> = dec_val a + dec_val b"
    using dec_val_aligned [of e a] dec_val_aligned [of e b] by (simp only: e_def min.cobounded1 min.cobounded2)
  finally have v: "dec_val s = dec_val a + dec_val b" .
  have "dec_add a b = fix28 s"
    by (simp add: dec_add_def Let_def s_def e_def)
  with fix28_exact [of s] assms v show ?thesis by simp
qed

lemma foldl_dec_add_exact:
  assumes "\<forall>x\<in>set xs. dec_val x * 10 \<in> \<int>" and "dec_val acc * 10 \<in> \<int>"
    and "\<bar>dec_val acc\<bar> + (\<Sum>x\<leftarrow>xs. \<bar>dec_val x\<bar>) < 10 ^ 27"
  shows "dec_val (foldl dec_add acc xs) = dec_val acc + (\<Sum>x\<leftarrow>xs. dec_val x)"
  using assms
proof (induction xs arbitrary: acc)
  case Nil
  then show ?case by simp
next
  case (Cons x xs)
  have tenth: "(dec_val acc + dec_val x) * 10 \<in> \<int>"
    using Cons.prems(1,2) by (simp add: distrib_right)
  have "0 \<le> (\<Sum>x\<leftarrow>xs. \<bar>dec_val x\<bar>)"
    by (rule sum_list_nonneg) auto
  with Cons.prems(3) have small: "\<bar>dec_val acc + dec_val x\<bar> < 10 ^ 27"
    by simp
  from dec_add_exact [OF tenth small]
  have step: "dec_val (dec_add acc x) = dec_val acc + dec_val x" .
  have "dec_val (foldl dec_add (dec_add acc x) xs) = dec_val (dec_add acc x) + (\<Sum>x\<leftarrow>xs. dec_val x)"
  proof (rule Cons.IH)
    show "\<forall>x\<in>set xs. dec_val x * 10 \<in> \<int>" using Cons.prems(1) by simp
    show "dec_val (dec_add acc x) * 10 \<in> \<int>" using tenth step by simp
    show "\<bar>dec_val (dec_add acc x)\<bar> + (\<Sum>x\<leftarrow>xs. \<bar>dec_val x\<bar>) < 10 ^ 27"
      using Cons.prems(3) step by simp
  qed
  with step show ?case by simp
qed

lemma foldl_decimal_add_Finite:
  "foldl decimal_add (Finite a) (map Finite xs) = Finite (foldl dec_add a xs)"
  by (induction xs arbitrary: a) simp_all

lemma py_sum_exact:
  assumes "\<forall>x\<in>set xs. dec_val x * 10 \<in> \<int>" and "(\<Sum>x\<leftarrow>xs. \<bar>dec_val x\<bar>) < 10 ^ 27"
  shows "\<exists>t. py_sum (map Finite xs) = Finite t \<and> dec_val t = (\<Sum>x\<leftarrow>xs. dec_val x)"
proof -
  have "dec_val (foldl dec_add (Dec 0 0) xs) = dec_val (Dec 0 0) + (\<Sum>x\<leftarrow>xs. dec_val x)"
    using assms by (intro foldl_dec_add_exact) (simp_all add: dec_val_def)
  then show ?thesis
    by (simp add: py_sum_def foldl_decimal_add_Finite dec_val_def)
qed

section \<open>Comparing the point lists\<close>

lemma py_eq_Finite:
  "py_eq (PDecimal (Finite a)) (PDecimal b) = (\<exists>q. b = Finite q \<and> dec_val a = dec_val q)"
  by (cases b) (auto simp: py_eq_def)

lemma first_point_mismatch_None:
  "length ks = length ps \<Longrightarrow> first_point_mismatch i (zip ks ps) = None \<Longrightarrow>
   \<exists>qs. ps = map Finite qs \<and> map dec_val qs = map dec_val ks"
proof (induction ks ps arbitrary: i rule: list_induct2)
  case Nil
  then show ?case by simp
next
  case (Cons k ks p ps)
  from Cons.prems have eq: "py_eq (PDecimal (Finite k)) (PDecimal p)"
    and rest: "first_point_mismatch (Suc i) (zip ks ps) = None"
    by (auto simp: py_ne_def split: if_splits)
  from eq obtain q where q: "p = Finite q" "dec_val k = dec_val q"
    by (auto simp: py_eq_Finite)
  from Cons.IH [OF rest] obtain qs where qs: "ps = map Finite qs" "map dec_val qs = map dec_val ks"
    by blast
  from q qs have "p # ps = map Finite (q # qs) \<and> map dec_val (q # qs) = map dec_val (k # ks)"
    by simp
  then show ?case by (rule exI)
qed

lemma first_point_mismatch_name:
  "first_point_mismatch i xs = Some m \<Longrightarrow> \<exists>j. fst m = ''Point['' @ str_nat j @ '']''"
proof (induction xs arbitrary: i)
  case Nil
  then show ?case by simp
next
  case (Cons x xs)
  obtain a b where x: "x = (a, b)" by (cases x)
  from Cons show ?case by (auto simp: x split: if_splits)
qed

lemma round_Decimal_exponent:
  "round_Decimal p = Inr (Finite d) \<Longrightarrow> exponent d = - 1"
proof -
  assume r: "round_Decimal p = Inr (Finite d)"
  then obtain x where x: "Decimal p = Inr x" "py_round1 x = Inr (Finite d)"
    by (auto simp: round_Decimal_def split: sum.splits)
  from x(2) show ?thesis
    by (cases x) (auto simp: Let_def split: if_splits)
qed

lemma round_all_set:
  "round_all ps = Inr ds \<Longrightarrow> d \<in> set ds \<Longrightarrow> \<exists>p\<in>set ps. round_Decimal p = Inr d"
proof (induction ps arbitrary: ds)
  case Nil
  then show ?case by simp
next
  case (Cons p ps)
  from Cons.prems(1) obtain x xs where x: "round_Decimal p = Inr x" "round_all ps = Inr xs" "ds = x # xs"
    by (auto split: sum.splits)
  with Cons.prems(2) Cons.IH [of xs] show ?case by auto
qed

lemma round_all_tenth:
  "round_all ps = Inr ds \<Longrightarrow> Finite q \<in> set ds \<Longrightarrow> dec_val q * 10 \<in> \<int>"
proof -
  assume "round_all ps = Inr ds" "Finite q \<in> set ds"
  then obtain p where "round_Decimal p = Inr (Finite q)"
    using round_all_set by blast
  then have "exponent q = - 1" by (rule round_Decimal_exponent)
  then show ?thesis by (simp add: dec_val_def)
qed

lemma equal_sorted_forms:
  assumes len: "length pts = length perl_dec"
    and srt: "py_sorted perl_dec = Inr sorted_perl"
    and fpm: "first_point_mismatch 0 (zip (sort_key dec_val pts) sorted_perl) = None"
  shows "\<exists>ds. perl_dec = map Finite ds \<and> mset (map dec_val pts) = mset (map dec_val ds)"
proof -
  from srt have sp_eq: "sorted_perl = sort_key sort_value perl_dec"
    by (auto simp: py_sorted_def split: if_splits)
  have len2: "length (sort_key dec_val pts) = length sorted_perl"
    using len by (simp add: sp_eq)
  from first_point_mismatch_None [OF len2 fpm] obtain qs where
    qs: "sorted_perl = map Finite qs" "map dec_val qs = map dec_val (sort_key dec_val pts)"
    by blast
  define ds where "ds = map (\<lambda>d. case d of Finite x \<Rightarrow> x | NaN \<Rightarrow> Dec 0 0) perl_dec"
  have "set perl_dec = set sorted_perl" by (simp add: sp_eq)
  then have fin: "\<forall>d\<in>set perl_dec. \<exists>x. d = Finite x"
    using qs(1) by auto
  then have pd: "perl_dec = map Finite ds"
    unfolding ds_def by (induction perl_dec) auto
  have "mset (map sort_value perl_dec) = mset (map sort_value sorted_perl)"
    by (simp add: sp_eq)
  then have "mset (map dec_val ds) = mset (map dec_val qs)"
    by (simp add: pd qs(1) sort_value_def comp_def)
  also have "\<dots> = mset (map dec_val pts)"
    by (simp add: qs(2))
  finally have "mset (map dec_val pts) = mset (map dec_val ds)" by simp
  with pd show ?thesis by blast
qed

lemma same_values_same_sum:
  "mset (map dec_val pts) = mset (map dec_val ds) \<Longrightarrow>
   (\<Sum>d\<leftarrow>pts. dec_val d) = (\<Sum>d\<leftarrow>ds. dec_val d)"
proof -
  assume "mset (map dec_val pts) = mset (map dec_val ds)"
  then have "sum_mset (mset (map dec_val pts)) = sum_mset (mset (map dec_val ds))"
    by simp
  then show ?thesis by (simp only: sum_mset_sum_list)
qed

lemma sum_count_branch:
  assumes kernel: "skipper_points_list s k = Some sp"
    and ret: "check_series_points s k perl = Inr (Some (''Sum Count'', a, b))"
  shows "\<exists>ds. round_all (low_n_list perl) = Inr (map Finite ds)
              \<and> mset (map dec_val (points_scored sp)) = mset (map dec_val ds)
              \<and> py_ne (PDecimal (py_sum (map Finite (points_scored sp))))
                       (PDecimal (py_sum (map Finite ds)))"
proof -
  define pts where "pts = points_scored sp"
  have no_point: "first_point_mismatch i xs \<noteq> Some (''Sum Count'', a, b)" for i xs
    using first_point_mismatch_name [of i xs "(''Sum Count'', a, b)"] by auto
  from ret kernel obtain perl_dec sorted_perl where
    r: "round_all (low_n_list perl) = Inr perl_dec"
    and len: "length pts = length perl_dec"
    and srt: "py_sorted perl_dec = Inr sorted_perl"
    and fpm: "first_point_mismatch 0 (zip (sort_key dec_val pts) sorted_perl) = None"
    and ne: "py_ne (PDecimal (py_sum (map Finite pts))) (PDecimal (py_sum perl_dec))"
    using no_point
    by (auto simp: check_series_points_def Let_def pts_def
             split: if_splits sum.splits option.splits)
  from equal_sorted_forms [OF len srt fpm] obtain ds where
    "perl_dec = map Finite ds" "mset (map dec_val pts) = mset (map dec_val ds)"
    by blast
  with r ne show ?thesis unfolding pts_def by blast
qed

text \<open>
  Claim C10, as amended. When the kernel's list and the rounded reference list have
  equal length and their sorted forms are element-wise equal, the two lists hold the
  same values up to order, so their exact sums are equal. The \<^verbatim>\<open>Sum Count\<close>
  mismatch is unreachable whenever the absolute values of the skipper's counted
  points add up to less than \<open>10 ^ 27\<close>: then no \<^verbatim>\<open>Decimal\<close> addition rounds.
\<close>

theorem sum_count_needs_rounding:
  "(length pts = length perl_dec \<and> py_sorted perl_dec = Inr sorted_perl
      \<and> first_point_mismatch 0 (zip (sort_key dec_val pts) sorted_perl) = None \<longrightarrow>
      (\<exists>ds. perl_dec = map Finite ds
            \<and> mset (map dec_val pts) = mset (map dec_val ds)
            \<and> (\<Sum>d\<leftarrow>pts. dec_val d) = (\<Sum>d\<leftarrow>ds. dec_val d)))
   \<and> ((\<forall>sp. skipper_points_list s k = Some sp \<longrightarrow>
             (\<Sum>d\<leftarrow>points_scored sp. \<bar>dec_val d\<bar>) < 10 ^ 27) \<longrightarrow>
        check_series_points s k perl \<noteq> Inr (Some (''Sum Count'', a, b)))"
proof (intro conjI impI)
  assume "length pts = length perl_dec \<and> py_sorted perl_dec = Inr sorted_perl
      \<and> first_point_mismatch 0 (zip (sort_key dec_val pts) sorted_perl) = None"
  then obtain ds where ds: "perl_dec = map Finite ds"
    "mset (map dec_val pts) = mset (map dec_val ds)"
    using equal_sorted_forms [of pts perl_dec sorted_perl] by blast
  from same_values_same_sum [OF ds(2)] ds
  show "\<exists>ds. perl_dec = map Finite ds
            \<and> mset (map dec_val pts) = mset (map dec_val ds)
            \<and> (\<Sum>d\<leftarrow>pts. dec_val d) = (\<Sum>d\<leftarrow>ds. dec_val d)"
    by blast
next
  assume small: "\<forall>sp. skipper_points_list s k = Some sp \<longrightarrow>
             (\<Sum>d\<leftarrow>points_scored sp. \<bar>dec_val d\<bar>) < 10 ^ 27"
  show "check_series_points s k perl \<noteq> Inr (Some (''Sum Count'', a, b))"
  proof
    assume ret: "check_series_points s k perl = Inr (Some (''Sum Count'', a, b))"
    have "skipper_points_list s k \<noteq> None"
      using ret
      by (cases "skipper_points_list s k")
         (auto simp: check_series_points_def Let_def split: if_splits)
    then obtain sp where kernel: "skipper_points_list s k = Some sp" by blast
    define pts where "pts = points_scored sp"
    from sum_count_branch [OF kernel ret] obtain ds where
      r: "round_all (low_n_list perl) = Inr (map Finite ds)"
      and ms: "mset (map dec_val pts) = mset (map dec_val ds)"
      and ne: "py_ne (PDecimal (py_sum (map Finite pts))) (PDecimal (py_sum (map Finite ds)))"
      unfolding pts_def by blast
    have tenth_ds: "\<forall>x\<in>set ds. dec_val x * 10 \<in> \<int>"
      using round_all_tenth [OF r] by auto
    have "set (map dec_val pts) = set (map dec_val ds)"
      using ms by (metis set_mset_mset)
    then have tenth_pts: "\<forall>x\<in>set pts. dec_val x * 10 \<in> \<int>"
      using tenth_ds by (auto simp: image_iff) (metis imageE image_eqI)
    from arg_cong [OF ms, of "image_mset abs"]
    have "mset (map abs (map dec_val pts)) = mset (map abs (map dec_val ds))"
      by (simp only: mset_map)
    then have "sum_mset (mset (map abs (map dec_val pts))) = sum_mset (mset (map abs (map dec_val ds)))"
      by simp
    then have "sum_list (map abs (map dec_val pts)) = sum_list (map abs (map dec_val ds))"
      by (simp only: sum_mset_sum_list)
    then have abs_eq: "(\<Sum>d\<leftarrow>pts. \<bar>dec_val d\<bar>) = (\<Sum>d\<leftarrow>ds. \<bar>dec_val d\<bar>)"
      by (simp add: comp_def)
    have small_pts: "(\<Sum>d\<leftarrow>pts. \<bar>dec_val d\<bar>) < 10 ^ 27"
      using small kernel by (simp add: pts_def)
    note sum_eq = same_values_same_sum [OF ms]
    from py_sum_exact [OF tenth_pts small_pts] obtain t where
      t: "py_sum (map Finite pts) = Finite t" "dec_val t = (\<Sum>x\<leftarrow>pts. dec_val x)" by blast
    from py_sum_exact [OF tenth_ds] small_pts abs_eq obtain u where
      u: "py_sum (map Finite ds) = Finite u" "dec_val u = (\<Sum>x\<leftarrow>ds. dec_val x)" by auto
    from t u sum_eq have "py_eq (PDecimal (py_sum (map Finite pts))) (PDecimal (py_sum (map Finite ds)))"
      by (simp add: py_eq_Finite)
    with ne show False by (simp add: py_ne_def)
  qed
qed

theorem sum_count_needs_rounding_witness:
  "skipper_points_list spring bob = Some \<lparr> points_scored = [Dec 20 (- 1), Dec 10 (- 1)] \<rparr>
   \<and> (\<Sum>d\<leftarrow>[Dec 20 (- 1), Dec 10 (- 1)]. \<bar>dec_val d\<bar>) = 3
   \<and> check_series_points spring bob bob_perl = Inr None
   \<and> py_sorted [Finite (Dec 15 (- 1)), Finite (Dec 10 (- 1)), Finite (Dec (10 ^ 28 - 10) (- 1))] =
       Inr [Finite (Dec 10 (- 1)), Finite (Dec 15 (- 1)), Finite (Dec (10 ^ 28 - 10) (- 1))]
   \<and> first_point_mismatch 0
        (zip (sort_key dec_val [Dec (10 ^ 27 - 1) 0, Dec 15 (- 1), Dec 10 (- 1)])
             [Finite (Dec 10 (- 1)), Finite (Dec 15 (- 1)), Finite (Dec (10 ^ 28 - 10) (- 1))]) = None
   \<and> (\<Sum>d\<leftarrow>[Dec (10 ^ 27 - 1) 0, Dec 15 (- 1), Dec 10 (- 1)]. dec_val d) =
       (\<Sum>d\<leftarrow>[Dec 15 (- 1), Dec 10 (- 1), Dec (10 ^ 28 - 10) (- 1)]. dec_val d)"
proof -
  let ?pts = "[Dec (10 ^ 27 - 1) 0, Dec 15 (- 1), Dec 10 (- 1)]"
  let ?ref = "[Dec 15 (- 1), Dec 10 (- 1), Dec (10 ^ 28 - 10) (- 1)]"
  let ?sorted = "[Finite (Dec 10 (- 1)), Finite (Dec 15 (- 1)), Finite (Dec (10 ^ 28 - 10) (- 1))]"
  have bob_kernel: "skipper_points_list spring bob =
                      Some \<lparr> points_scored = [Dec 20 (- 1), Dec 10 (- 1)] \<rparr>"
    by (simp add: spring_def alice_def bob_def carol_def)
  have bob_small: "(\<Sum>d\<leftarrow>[Dec 20 (- 1), Dec 10 (- 1)]. \<bar>dec_val d\<bar>) = 3"
    by (simp add: dec_val_def)
  have bob_pass: "check_series_points spring bob bob_perl = Inr None"
    by code_simp
  from sum_count_needs_rounding [of _ _ _ spring bob bob_perl "Val (PInt 2)" "Val (PInt 2)"]
       bob_kernel bob_small
  have "check_series_points spring bob bob_perl \<noteq> Inr (Some (''Sum Count'', Val (PInt 2), Val (PInt 2)))"
    by simp
  have len: "length ?pts = length (map Finite ?ref)"
    by simp
  have srt: "py_sorted (map Finite ?ref) = Inr ?sorted"
    by code_simp
  have fpm: "first_point_mismatch 0 (zip (sort_key dec_val ?pts) ?sorted) = None"
    by code_simp
  from sum_count_needs_rounding [of ?pts "map Finite ?ref" ?sorted] len srt fpm
  obtain ds where ds: "map Finite ?ref = map Finite ds"
    "(\<Sum>d\<leftarrow>?pts. dec_val d) = (\<Sum>d\<leftarrow>ds. dec_val d)"
    by blast
  from ds(1) have "ds = ?ref"
    by (auto simp: map_eq_Cons_conv)
  with ds(2) bob_kernel bob_small bob_pass srt fpm show ?thesis by simp
qed

text \<open>
  Claim C10 as it is stated fails where an addition rounds. The kernel's points
  \<open>10 ^ 27 - 1\<close>, 1.5, 1.0 and the reference list 1.5, 1, \<open>10 ^ 27 - 1\<close> have equal
  lengths and equal sorted forms, but \<^verbatim>\<open>sum\<close> gives \<open>10 ^ 27 + 1\<close> for the first and
  \<open>10 ^ 27 + 2\<close> for the second, and the check returns \<^verbatim>\<open>Sum Count\<close>.
\<close>

theorem sum_count_reached_counterexample:
  "check_series_points huge alice huge_perl =
     Inr (Some (''Sum Count'', Val (PInt 3), Val (PInt 3)))
   \<and> py_sum (map Finite [Dec (10 ^ 27 - 1) 0, Dec 15 (- 1), Dec 10 (- 1)]) =
       Finite (Dec (10 ^ 27 + 1) 0)
   \<and> py_sum [Finite (Dec 15 (- 1)), Finite (Dec 10 (- 1)), Finite (Dec (10 ^ 28 - 10) (- 1))] =
       Finite (Dec (10 ^ 27 + 2) 0)"
  by code_simp

section \<open>Which reference values are rounded\<close>

lemma py_round1_near:
  assumes "py_round1 (Number x) = Inr (Finite d)"
  shows "\<bar>dec_val d - dec_val x\<bar> \<le> 1 / 20
         \<and> (\<bar>dec_val d - dec_val x\<bar> = 1 / 20 \<longrightarrow> even (coefficient d))"
proof (cases "- 1 \<le> exponent x")
  case True
  with assms have d: "d = Dec (coefficient x * 10 ^ nat (exponent x + 1)) (- 1)"
    by (auto simp: Let_def split: if_splits)
  have "nat (exponent x - (- 1)) = nat (exponent x + 1)" by simp
  with dec_val_aligned [of "- 1" x] True have "dec_val d = dec_val x"
    by (simp add: d dec_val_powi)
  then show ?thesis by simp
next
  case False
  define c where "c = coefficient x"
  define m :: int where "m = 10 ^ nat (- 1 - exponent x)"
  define q where "q = round_half_even_div c m"
  have m_pos: "0 < m" by (simp add: m_def)
  from False assms have d: "d = Dec q (- 1)"
    by (auto simp: Let_def q_def c_def m_def split: if_splits)
  have "nat (- exponent x) = Suc (nat (- 1 - exponent x))"
    using False by simp
  then have vx: "dec_val x = of_int c / (10 * of_int m)"
    using False by (simp add: dec_val_def c_def m_def)
  have vd: "dec_val d = of_int q / 10"
    by (simp add: d dec_val_def)
  define z where "z = m * q - c"
  have "dec_val d - dec_val x = of_int z / (10 * of_int m)"
    using m_pos by (simp add: vx vd z_def field_simps)
  then have "\<bar>dec_val d - dec_val x\<bar> = of_int \<bar>z\<bar> / (10 * of_int m)"
    using m_pos by simp
  moreover have "\<bar>2 * (c - y)\<bar> = 2 * \<bar>y - c\<bar>" for y :: int
    by (auto simp: abs_if)
  then have "\<bar>2 * (c - m * q)\<bar> = 2 * \<bar>z\<bar>"
    unfolding z_def .
  ultimately have diff: "\<bar>dec_val d - dec_val x\<bar> = of_int \<bar>2 * (c - m * q)\<bar> / (20 * of_int m)"
    by simp
  from round_half_even_div_near [OF m_pos, of c]
  have near: "\<bar>2 * (c - m * q)\<bar> \<le> m" "\<bar>2 * (c - m * q)\<bar> = m \<longrightarrow> even q"
    by (simp_all add: q_def)
  have le: "(of_int \<bar>2 * (c - m * q)\<bar> :: rat) \<le> of_int m"
    using near(1) by (simp only: of_int_le_iff)
  have "\<bar>dec_val d - dec_val x\<bar> \<le> 1 / 20"
    using le m_pos unfolding diff by (simp add: field_simps)
  moreover have "even (coefficient d)" if "\<bar>dec_val d - dec_val x\<bar> = 1 / 20"
  proof -
    from that have "(of_int \<bar>2 * (c - m * q)\<bar> :: rat) = of_int m"
      using m_pos unfolding diff by (simp add: field_simps)
    then have "\<bar>2 * (c - m * q)\<bar> = m" by (simp only: of_int_eq_iff)
    with near(2) show ?thesis by (simp add: d)
  qed
  ultimately show ?thesis by blast
qed

lemma round_Decimal_near:
  assumes "Decimal p = Inr (Number x)" and "round_Decimal p = Inr (Finite d)"
  shows "\<bar>dec_val d - dec_val x\<bar> \<le> 1 / 20
         \<and> (\<bar>dec_val d - dec_val x\<bar> = 1 / 20 \<longrightarrow> even (coefficient d))"
  using assms py_round1_near [of x d] by (simp add: round_Decimal_def)

text \<open>
  Claim C4, as amended. The elements of the reference \<^verbatim>\<open>low_n_list\<close> (once none of them
  is a string) and the reference \<^verbatim>\<open>rc_points\<close> of a skipper for whom the kernel reports
  race-committee points enter the comparison only through \<^verbatim>\<open>round(Decimal(p), 1)\<close>:
  the result has exponent \<open>-1\<close>, lies within one twentieth of the exact value of
  \<open>p\<close> with ties going to the even digit, two reference records with the same rounded
  values give the same result, and the race-committee check passes exactly when the
  kernel's value equals the rounded one. The entries of \<^verbatim>\<open>race\<close> and the two counts
  are compared as loaded.
\<close>

theorem reference_points_compared_rounded:
  "(\<forall>d. round_Decimal p = Inr (Finite d) \<longrightarrow> exponent d = - 1)
   \<and> (\<forall>x d. Decimal p = Inr (Number x) \<and> round_Decimal p = Inr (Finite d) \<longrightarrow>
         \<bar>dec_val d - dec_val x\<bar> \<le> 1 / 20
         \<and> (\<bar>dec_val d - dec_val x\<bar> = 1 / 20 \<longrightarrow> even (coefficient d)))
   \<and> (\<forall>sp. skipper_points_list s k = Some sp
         \<and> \<not> list_ex is_str (low_n_list perl) \<and> \<not> list_ex is_str (low_n_list perl')
         \<and> round_all (low_n_list perl) = round_all (low_n_list perl') \<longrightarrow>
         check_series_points s k perl = check_series_points s k perl')
   \<and> (\<forall>v. get_skipper_rc_points s k = Some v
         \<and> round_Decimal (rc_points perl) = round_Decimal (rc_points perl') \<longrightarrow>
         check_rc_points s k perl = check_rc_points s k perl')
   \<and> (\<forall>v d. get_skipper_rc_points s k = Some v \<and> round_Decimal (rc_points perl) = Inr d \<longrightarrow>
         (check_rc_points s k perl = Inr None) = py_eq (PDecimal (Finite v)) (PDecimal d))
   \<and> ((check_race_results s k perl = Inr None) =
        (\<forall>i<length (races s).
           py_eq (python_race_result (races s ! i) k) (perl_race_result perl i)))
   \<and> ((check_finished_race_count s k perl = Inr None) =
        py_eq (PInt (int (length (filter (\<lambda>r. get_skipper_race_points r k \<noteq> None) (races s)))))
              (finished_races perl))
   \<and> ((check_rc_race_count s k perl = Inr None) =
        py_eq (PInt (int (length (filter (\<lambda>r. k \<in> rc_skippers r) (races s)))))
              (rced_races perl))"
proof (intro conjI allI impI)
  show "(check_race_results s k perl = Inr None) =
        (\<forall>i<length (races s).
           py_eq (python_race_result (races s ! i) k) (perl_race_result perl i))"
    using race_results_from_None [of 0 "races s" k perl]
    by (simp add: check_race_results_def)
next
  show "(check_finished_race_count s k perl = Inr None) =
        py_eq (PInt (int (length (filter (\<lambda>r. get_skipper_race_points r k \<noteq> None) (races s)))))
              (finished_races perl)"
    by (simp add: check_finished_race_count_def Let_def py_ne_def)
next
  show "(check_rc_race_count s k perl = Inr None) =
        py_eq (PInt (int (length (filter (\<lambda>r. k \<in> rc_skippers r) (races s)))))
              (rced_races perl)"
    by (simp add: check_rc_race_count_def Let_def py_ne_def)
next
  fix d assume "round_Decimal p = Inr (Finite d)"
  then show "exponent d = - 1" by (rule round_Decimal_exponent)
next
  fix x d assume "Decimal p = Inr (Number x) \<and> round_Decimal p = Inr (Finite d)"
  then show "\<bar>dec_val d - dec_val x\<bar> \<le> 1 / 20"
    and "\<bar>dec_val d - dec_val x\<bar> = 1 / 20 \<Longrightarrow> even (coefficient d)"
    using round_Decimal_near [of p x d] by simp_all
next
  fix sp assume "skipper_points_list s k = Some sp
         \<and> \<not> list_ex is_str (low_n_list perl) \<and> \<not> list_ex is_str (low_n_list perl')
         \<and> round_all (low_n_list perl) = round_all (low_n_list perl')"
  then show "check_series_points s k perl = check_series_points s k perl'"
    by (simp add: check_series_points_def Let_def)
next
  fix v assume "get_skipper_rc_points s k = Some v
         \<and> round_Decimal (rc_points perl) = round_Decimal (rc_points perl')"
  then show "check_rc_points s k perl = check_rc_points s k perl'"
    by (simp add: check_rc_points_def Let_def)
next
  fix v d assume "get_skipper_rc_points s k = Some v \<and> round_Decimal (rc_points perl) = Inr d"
  then show "(check_rc_points s k perl = Inr None) = py_eq (PDecimal (Finite v)) (PDecimal d)"
    by (simp add: check_rc_points_def Let_def py_ne_def)
qed

theorem reference_points_compared_rounded_witness:
  "round_Decimal (PFloat 5 2) = Inr (Finite (Dec 12 (- 1)))
   \<and> Decimal (PFloat 5 2) = Inr (Number (Dec 125 (- 2)))
   \<and> \<bar>dec_val (Dec 12 (- 1)) - dec_val (Dec 125 (- 2))\<bar> = 1 / 20
   \<and> even (coefficient (Dec 12 (- 1)))
   \<and> check_series_points quarter alice quarter_perl =
       check_series_points quarter alice (quarter_perl \<lparr> low_n_list := [PFloat 19 4] \<rparr>)
   \<and> check_rc_points spring carol carol_perl =
       check_rc_points spring carol (carol_perl \<lparr> rc_points := PStr ''2.04'' \<rparr>)
   \<and> check_rc_points spring carol carol_perl = Inr None"
proof -
  have r: "round_Decimal (PFloat 5 2) = Inr (Finite (Dec 12 (- 1)))"
    by code_simp
  have x: "Decimal (PFloat 5 2) = Inr (Number (Dec 125 (- 2)))"
    by simp
  have tie: "\<bar>dec_val (Dec 12 (- 1)) - dec_val (Dec 125 (- 2))\<bar> = 1 / 20"
    by (simp add: dec_val_def)
  have kernel: "skipper_points_list quarter alice = Some \<lparr> points_scored = [Dec 12 (- 1)] \<rparr>"
    by (simp add: quarter_def)
  have nostr: "\<not> list_ex is_str (low_n_list quarter_perl)"
    "\<not> list_ex is_str (low_n_list (quarter_perl \<lparr> low_n_list := [PFloat 19 4] \<rparr>))"
    by (simp_all add: quarter_perl_def is_str_def)
  have same: "round_all (low_n_list quarter_perl) =
              round_all (low_n_list (quarter_perl \<lparr> low_n_list := [PFloat 19 4] \<rparr>))"
    by code_simp
  have rc_kernel: "get_skipper_rc_points spring carol = Some (Dec 20 (- 1))"
    by (simp add: spring_def alice_def bob_def carol_def)
  have rc_round: "round_Decimal (rc_points carol_perl) = Inr (Finite (Dec 20 (- 1)))"
    by code_simp
  have rc_same: "round_Decimal (rc_points carol_perl) =
                 round_Decimal (rc_points (carol_perl \<lparr> rc_points := PStr ''2.04'' \<rparr>))"
    by code_simp
  have rc_eq: "py_eq (PDecimal (Finite (Dec 20 (- 1)))) (PDecimal (Finite (Dec 20 (- 1))))"
    by (simp add: py_eq_Finite)
  note at_carol = reference_points_compared_rounded
    [of "PFloat 5 2" spring carol carol_perl "carol_perl \<lparr> rc_points := PStr ''2.04'' \<rparr>"]
  note at_quarter = reference_points_compared_rounded
    [of "PFloat 5 2" quarter alice quarter_perl "quarter_perl \<lparr> low_n_list := [PFloat 19 4] \<rparr>"]
  from at_carol r x tie have is_even: "even (coefficient (Dec 12 (- 1)))"
    by blast
  from at_quarter kernel nostr same
  have lists: "check_series_points quarter alice quarter_perl =
       check_series_points quarter alice (quarter_perl \<lparr> low_n_list := [PFloat 19 4] \<rparr>)"
    by blast
  from at_carol rc_kernel rc_same
  have rcs: "check_rc_points spring carol carol_perl =
       check_rc_points spring carol (carol_perl \<lparr> rc_points := PStr ''2.04'' \<rparr>)"
    by blast
  from at_carol rc_kernel rc_round rc_eq
  have pass: "check_rc_points spring carol carol_perl = Inr None"
    by blast
  from r x tie is_even lists rcs pass show ?thesis by blast
qed

text \<open>
  Claim C4 as it is stated fails for the entries of \<^verbatim>\<open>race\<close>. The kernel gives Alice
  1.2 points in race 1 and the dump holds the float 1.25, which rounds to 1.2: the
  per-race check compares the value as loaded and reports \<^verbatim>\<open>Race[1]\<close>, while the same
  float in \<^verbatim>\<open>low_n_list\<close> is rounded and accepted.
\<close>

theorem race_value_not_rounded_counterexample:
  "round_Decimal (PFloat 5 2) = Inr (Finite (Dec 12 (- 1)))
   \<and> get_skipper_race_points race_q alice = Some (Dec 12 (- 1))
   \<and> check_race_results quarter alice quarter_perl =
       Inr (Some (''Race[1]'', Val (PDecimal (Finite (Dec 12 (- 1)))), Val (PFloat 5 2)))
   \<and> check_series_points quarter alice quarter_perl = Inr None"
  by code_simp

end
